theory Spec2Isabelle
  imports Complex_Main "HOL-Library.Multiset"
begin

section \<open>Floating-point values\<close>

text \<open>
  The indicators are Python floats. A float is modelled as an exact real number or one
  of the three special values of IEEE 754: the two infinities and not-a-number. Rounding,
  overflow of finite operands and the sign of zero are left out; what is kept is where the
  special values arise (division by zero, \<open>inf - inf\<close>, \<open>0 * inf\<close>) and that every
  comparison with not-a-number is false.
\<close>

datatype fval = Fin real | PInf | NInf | NaN

fun fgt :: "fval \<Rightarrow> real \<Rightarrow> bool" where
  "fgt (Fin x) c = (x > c)"
| "fgt PInf c = True"
| "fgt NInf c = False"
| "fgt NaN c = False"

fun flt :: "fval \<Rightarrow> real \<Rightarrow> bool" where
  "flt (Fin x) c = (x < c)"
| "flt PInf c = False"
| "flt NInf c = True"
| "flt NaN c = False"

fun fneg :: "fval \<Rightarrow> fval" where
  "fneg (Fin x) = Fin (- x)"
| "fneg PInf = NInf"
| "fneg NInf = PInf"
| "fneg NaN = NaN"

fun fadd :: "fval \<Rightarrow> fval \<Rightarrow> fval" where
  "fadd (Fin x) (Fin y) = Fin (x + y)"
| "fadd NaN _ = NaN"
| "fadd _ NaN = NaN"
| "fadd PInf NInf = NaN"
| "fadd NInf PInf = NaN"
| "fadd PInf _ = PInf"
| "fadd _ PInf = PInf"
| "fadd NInf _ = NInf"
| "fadd _ NInf = NInf"

definition fsub :: "fval \<Rightarrow> fval \<Rightarrow> fval" where
  "fsub a b = fadd a (fneg b)"

fun inf_signed :: "bool \<Rightarrow> fval" where
  "inf_signed True = PInf"
| "inf_signed False = NInf"

fun fmul :: "fval \<Rightarrow> fval \<Rightarrow> fval" where
  "fmul (Fin x) (Fin y) = Fin (x * y)"
| "fmul NaN _ = NaN"
| "fmul _ NaN = NaN"
| "fmul PInf PInf = PInf"
| "fmul NInf NInf = PInf"
| "fmul PInf NInf = NInf"
| "fmul NInf PInf = NInf"
| "fmul PInf (Fin y) = (if y = 0 then NaN else inf_signed (y > 0))"
| "fmul NInf (Fin y) = (if y = 0 then NaN else inf_signed (y < 0))"
| "fmul (Fin x) PInf = (if x = 0 then NaN else inf_signed (x > 0))"
| "fmul (Fin x) NInf = (if x = 0 then NaN else inf_signed (x < 0))"

fun fdiv :: "fval \<Rightarrow> fval \<Rightarrow> fval" where
  "fdiv (Fin x) (Fin y) =
     (if y \<noteq> 0 then Fin (x / y) else if x = 0 then NaN else inf_signed (x > 0))"
| "fdiv NaN _ = NaN"
| "fdiv _ NaN = NaN"
| "fdiv (Fin x) PInf = Fin 0"
| "fdiv (Fin x) NInf = Fin 0"
| "fdiv PInf (Fin y) = inf_signed (y \<ge> 0)"
| "fdiv NInf (Fin y) = inf_signed (y < 0)"
| "fdiv PInf _ = NaN"
| "fdiv NInf _ = NaN"

fun fsqrt :: "fval \<Rightarrow> fval" where
  "fsqrt (Fin x) = (if x \<ge> 0 then Fin (sqrt x) else NaN)"
| "fsqrt PInf = PInf"
| "fsqrt NInf = NaN"
| "fsqrt NaN = NaN"

definition fsum :: "fval list \<Rightarrow> fval" where
  "fsum xs = foldl fadd (Fin 0) xs"

section \<open>The price history table\<close>

text \<open>
  One row of a data frame. The first five fields are the columns of the table written by
  \<open>data_ingestion.py\<close> and read back by \<open>app.py\<close>: \<open>date\<close>, \<open>product_id\<close>,
  \<open>product_name\<close>, \<open>avg_price\<close>, \<open>qty_sold\<close>. The field \<open>cells\<close> holds the row's
  values in the columns added later, by column name. A date is a day number. A price is a
  finite number of any sign: the type leaves out a missing (not-a-number) price, nothing
  else.
\<close>

record observation =
  date :: int
  product_id :: string
  product_name :: string
  avg_price :: real
  qty_sold :: int
  cells :: "string \<rightharpoonup> fval"

type_synonym dataframe = "observation list"

text \<open>
  Data frames are objects: the analysis receives a reference to one, creates others and
  assigns columns in place. The heap lists the frames in order of creation and a
  reference is a position in it.
\<close>

type_synonym heap = "dataframe list"

type_synonym ref = nat

definition alloc :: "heap \<Rightarrow> dataframe \<Rightarrow> heap \<times> ref" where
  "alloc h frame = (h @ [frame], length h)"

datatype error = IndexError | KeyError

section \<open>The pandas operations the analysis calls\<close>

text \<open>\<open>Series.unique()\<close>: the distinct values in order of first appearance.\<close>

fun unique_from :: "'a list \<Rightarrow> 'a list \<Rightarrow> 'a list" where
  "unique_from seen [] = []"
| "unique_from seen (x # xs) =
     (if x \<in> set seen then unique_from seen xs else x # unique_from (x # seen) xs)"

definition unique :: "'a list \<Rightarrow> 'a list" where
  "unique xs = unique_from [] xs"

text \<open>
  \<open>sort_values(by='date')\<close>: the rows in ascending order of date. The default sort of
  pandas is a quicksort, which is not stable: it fixes the order of rows of equal date, but
  not as their order in the frame. That order is the parameter \<open>ties\<close>: it arranges
  the rows, and the arrangement is then sorted by date, rows of equal date staying as
  arranged. An arrangement that is not a permutation of the rows is not used. Every
  date-ordered permutation of the rows is the result for some \<open>ties\<close>, and nothing else is.
\<close>

definition sort_values :: "(dataframe \<Rightarrow> dataframe) \<Rightarrow> dataframe \<Rightarrow> dataframe" where
  "sort_values ties rows =
     sort_key date (if mset (ties rows) = mset rows then ties rows else rows)"

text \<open>\<open>Series.iloc[-1]\<close>: the last element; an empty series raises \<open>IndexError\<close>.\<close>

fun iloc_last :: "'a list \<Rightarrow> error + 'a" where
  "iloc_last [] = Inl IndexError"
| "iloc_last (x # xs) = Inr (last (x # xs))"

text \<open>
  \<open>frame[name] = values\<close> for an added column: every row receives its value. The values
  assigned below have the length of the frame.
\<close>

definition setitem :: "dataframe \<Rightarrow> string \<Rightarrow> fval list \<Rightarrow> dataframe" where
  "setitem frame name vals = map2 (\<lambda>r v. r\<lparr>cells := (cells r)(name \<mapsto> v)\<rparr>) frame vals"

text \<open>\<open>frame[name]\<close> for an added column: its values, or \<open>KeyError\<close> where a row has none.\<close>

fun getitem :: "dataframe \<Rightarrow> string \<Rightarrow> error + fval list" where
  "getitem [] name = Inr []"
| "getitem (r # rs) name =
     (case cells r name of
        None \<Rightarrow> Inl KeyError
      | Some v \<Rightarrow> (case getitem rs name of Inl e \<Rightarrow> Inl e | Inr vs \<Rightarrow> Inr (v # vs)))"

text \<open>
  \<open>Series.pct_change()\<close>: each value divided by its predecessor, minus one; the first
  entry has no predecessor and is not-a-number.
\<close>

definition pct_change :: "real list \<Rightarrow> fval list" where
  "pct_change xs =
     (case xs of
        [] \<Rightarrow> []
      | x # rest \<Rightarrow> NaN # map2 (\<lambda>prev cur. fsub (fdiv (Fin cur) (Fin prev)) (Fin 1)) xs rest)"

text \<open>
  \<open>Series.std()\<close> with its defaults \<open>skipna=True\<close> and \<open>ddof=1\<close>: not-a-number entries
  are dropped, fewer than two remaining entries give not-a-number, otherwise the square
  root of the sum of squared deviations from the mean divided by the count minus one.
  An infinite entry makes the mean infinite and the result not-a-number, through
  \<open>inf - inf\<close>.
\<close>

definition std :: "fval list \<Rightarrow> fval" where
  "std xs =
     (let vals = filter (\<lambda>v. v \<noteq> NaN) xs;
          count = length vals
      in if count \<le> 1 then NaN
         else
           let avg = fdiv (fsum vals) (Fin (real count));
               sqr = map (\<lambda>v. fmul (fsub avg v) (fsub avg v)) vals
           in fsqrt (fdiv (fsum sqr) (Fin (real (count - 1)))))"

section \<open>The relative strength index of the ta library\<close>

text \<open>
  \<open>ta.momentum.rsi(close, window)\<close> is \<open>RSIIndicator(close, window, fillna=False).rsi()\<close>
  of the third-party package \<open>ta\<close>, in the release that names the parameter \<open>window\<close>:
  \<^verbatim>\<open>
  diff = close.diff(1)
  up_direction = diff.where(diff > 0, 0.0)
  down_direction = -diff.where(diff < 0, 0.0)
  emaup = up_direction.ewm(alpha=1/window, min_periods=window, adjust=False).mean()
  emadn = down_direction.ewm(alpha=1/window, min_periods=window, adjust=False).mean()
  relative_strength = emaup / emadn
  rsi = np.where(emadn == 0, 100, 100 - (100 / (1 + relative_strength)))
  \<close>
  The first difference is missing (\<open>None\<close> below); \<open>where\<close> replaces it by zero, so the
  smoothed series hold numbers only.
\<close>

definition diff :: "real list \<Rightarrow> real option list" where
  "diff xs =
     (case xs of
        [] \<Rightarrow> []
      | x # rest \<Rightarrow> None # map2 (\<lambda>prev cur. Some (cur - prev)) xs rest)"

definition up_direction :: "real option list \<Rightarrow> real list" where
  "up_direction d =
     map (\<lambda>v. case v of None \<Rightarrow> 0 | Some r \<Rightarrow> if r > 0 then r else 0) d"

definition down_direction :: "real option list \<Rightarrow> real list" where
  "down_direction d =
     map (\<lambda>v. - (case v of None \<Rightarrow> 0 | Some r \<Rightarrow> if r < 0 then r else 0)) d"

text \<open>
  \<open>ewm(alpha, adjust=False).mean()\<close> on a series without missing values: the first value
  starts the average and each further value \<open>x\<close> moves it to \<open>(1 - alpha) * y + alpha * x\<close>.
  With \<open>min_periods\<close>, the entries before that many values have been seen are
  not-a-number.
\<close>

fun ewm_from :: "real \<Rightarrow> real \<Rightarrow> real list \<Rightarrow> real list" where
  "ewm_from alpha y [] = []"
| "ewm_from alpha y (x # xs) =
     (let y' = (1 - alpha) * y + alpha * x in y' # ewm_from alpha y' xs)"

definition ewm :: "real \<Rightarrow> real list \<Rightarrow> real list" where
  "ewm alpha xs = (case xs of [] \<Rightarrow> [] | x # rest \<Rightarrow> x # ewm_from alpha x rest)"

definition ewm_mean :: "real \<Rightarrow> nat \<Rightarrow> real list \<Rightarrow> fval list" where
  "ewm_mean alpha min_periods xs =
     map (\<lambda>(i, y). if min_periods \<le> i + 1 then Fin y else NaN) (enumerate 0 (ewm alpha xs))"

definition rsi_point :: "fval \<Rightarrow> fval \<Rightarrow> fval" where
  "rsi_point emaup emadn =
     (if emadn = Fin 0 then Fin 100
      else fsub (Fin 100) (fdiv (Fin 100) (fadd (Fin 1) (fdiv emaup emadn))))"

definition momentum_rsi :: "real list \<Rightarrow> nat \<Rightarrow> fval list" where
  "momentum_rsi close window =
     (let d = diff close;
          emaup = ewm_mean (1 / real window) window (up_direction d);
          emadn = ewm_mean (1 / real window) window (down_direction d)
      in map2 rsi_point emaup emadn)"

section \<open>The analysis\<close>

text \<open>One value of the result dictionary: the keys \<open>rsi\<close>, \<open>volatility\<close>, \<open>signal\<close>, \<open>signal_color\<close>.\<close>

record indicator =
  rsi :: fval
  volatility :: fval
  signal :: string
  signal_color :: string

text \<open>
  Lines 32 to 46 of \<open>pricing_model.py\<close>: the two variables start as the neutral signal and
  the \<open>if\<close>/\<open>elif\<close> chain overwrites both at its first true condition.
\<close>

definition signal_logic :: "fval \<Rightarrow> string \<times> string" where
  "signal_logic current_rsi =
     (let signal = ''HOLD / NEUTRAL''; signal_color = ''gray''
      in if fgt current_rsi 70 then (''SELL (Overbought)'', ''red'')
         else if flt current_rsi 30 then (''BUY (Oversold)'', ''green'')
         else if fgt current_rsi 60 then (''Watch (Trending High)'', ''orange'')
         else if flt current_rsi 40 then (''Watch (Trending Low)'', ''blue'')
         else (signal, signal_color))"

text \<open>\<open>results[ticker] = value\<close> on a dictionary, which keeps its keys in insertion order.\<close>

fun dict_set :: "('k \<times> 'v) list \<Rightarrow> 'k \<Rightarrow> 'v \<Rightarrow> ('k \<times> 'v) list" where
  "dict_set [] k v = [(k, v)]"
| "dict_set ((k', v') # kvs) k v =
     (if k' = k then (k, v) # kvs else (k', v') # dict_set kvs k v)"

text \<open>
  The loop over the tickers, with the heap and the dictionary \<open>results\<close> as its state.
  Selecting the rows of the ticker, \<open>copy\<close> and \<open>sort_values\<close> each create a frame; the two
  column assignments change the last of them in place. An instrument with fewer than 15
  rows is skipped by \<open>continue\<close>. The first argument is what the sort does with rows of
  equal date.
\<close>

fun analyze_loop ::
  "(dataframe \<Rightarrow> dataframe) \<Rightarrow> heap \<Rightarrow> ref \<Rightarrow> string list \<Rightarrow> (string \<times> indicator) list
     \<Rightarrow> heap \<times> (error + (string \<times> indicator) list)" where
  "analyze_loop ties h df [] results = (h, Inr results)"
| "analyze_loop ties h df (ticker # rest) results =
     (let (h1, selected) = alloc h (filter (\<lambda>r. product_id r = ticker) (h ! df));
          (h2, copied) = alloc h1 (h1 ! selected);
          (h3, stock_df) = alloc h2 (sort_values ties (h2 ! copied))
      in if length (h3 ! stock_df) < 15 then analyze_loop ties h3 df rest results
         else
           let h4 = h3[stock_df :=
                      setitem (h3 ! stock_df) ''rsi''
                        (momentum_rsi (map avg_price (h3 ! stock_df)) 14)];
               h5 = h4[stock_df :=
                      setitem (h4 ! stock_df) ''pct_change''
                        (pct_change (map avg_price (h4 ! stock_df)))]
           in case getitem (h5 ! stock_df) ''pct_change'' of
                Inl e \<Rightarrow> (h5, Inl e)
              | Inr pct \<Rightarrow>
                  let vol = fmul (std pct) (Fin (sqrt 252))
                  in case getitem (h5 ! stock_df) ''rsi'' of
                       Inl e \<Rightarrow> (h5, Inl e)
                     | Inr rsi_col \<Rightarrow>
                         (case iloc_last rsi_col of
                            Inl e \<Rightarrow> (h5, Inl e)
                          | Inr current_rsi \<Rightarrow>
                              (case signal_logic current_rsi of
                                 (sig, col) \<Rightarrow>
                                   analyze_loop ties h5 df rest
                                     (dict_set results ticker
                                        \<lparr>rsi = current_rsi, volatility = vol,
                                         signal = sig, signal_color = col\<rparr>))))"

definition analyze_technical_indicators ::
  "(dataframe \<Rightarrow> dataframe) \<Rightarrow> heap \<Rightarrow> ref \<Rightarrow> heap \<times> (error + (string \<times> indicator) list)" where
  "analyze_technical_indicators ties h df = analyze_loop ties h df (unique (map product_id (h ! df))) []"

section \<open>Notions used to state the properties\<close>

text \<open>
  The entry the call leaves for a ticker: none when the call raised or the dictionary has
  no such key.
\<close>

definition emitted ::
  "heap \<times> (error + (string \<times> indicator) list) \<Rightarrow> string \<Rightarrow> indicator option" where
  "emitted out ticker =
     (case snd out of Inl e \<Rightarrow> None | Inr results \<Rightarrow> map_of results ticker)"

text \<open>The date-ordered price series of one instrument of a table.\<close>

definition stock_prices :: "(dataframe \<Rightarrow> dataframe) \<Rightarrow> dataframe \<Rightarrow> string \<Rightarrow> real list" where
  "stock_prices ties table ticker =
     map avg_price (sort_values ties (filter (\<lambda>r. product_id r = ticker) table))"

text \<open>
  The observations of one instrument in ascending date order, stated without the sort of
  the analysis: \<open>rows\<close> holds exactly the rows of the ticker and its dates ascend. With
  pairwise distinct dates there is one such list; with repeated dates there are several.
\<close>

definition date_ordered :: "dataframe \<Rightarrow> string \<Rightarrow> dataframe \<Rightarrow> bool" where
  "date_ordered table ticker rows \<longleftrightarrow>
     mset rows = mset (filter (\<lambda>r. product_id r = ticker) table) \<and> sorted (map date rows)"

text \<open>What one turn of the loop stores for a price series, and the dictionary this gives.\<close>

definition entry_of :: "real list \<Rightarrow> indicator" where
  "entry_of prices =
     \<lparr>rsi = last (momentum_rsi prices 14),
      volatility = fmul (std (pct_change prices)) (Fin (sqrt 252)),
      signal = fst (signal_logic (last (momentum_rsi prices 14))),
      signal_color = snd (signal_logic (last (momentum_rsi prices 14)))\<rparr>"

definition entries_of ::
  "(dataframe \<Rightarrow> dataframe) \<Rightarrow> dataframe \<Rightarrow> string list \<Rightarrow> (string \<times> indicator) list" where
  "entries_of ties table tickers =
     map (\<lambda>t. (t, entry_of (stock_prices ties table t)))
       (filter (\<lambda>t. 15 \<le> length (stock_prices ties table t)) tickers)"

text \<open>
  Day-over-day price changes and the magnitudes of the upward and of the downward ones; a
  zero change counts as zero in both.
\<close>

definition price_changes :: "real list \<Rightarrow> real list" where
  "price_changes prices = map2 (\<lambda>prev cur. cur - prev) prices (tl prices)"

definition gains :: "real list \<Rightarrow> real list" where
  "gains changes = map (\<lambda>c. if c > 0 then c else 0) changes"

definition losses :: "real list \<Rightarrow> real list" where
  "losses changes = map (\<lambda>c. if c < 0 then - c else 0) changes"

text \<open>The last value of the exponential smoothing started at \<open>y\<close>.\<close>

definition smooth :: "real \<Rightarrow> real \<Rightarrow> real list \<Rightarrow> real" where
  "smooth alpha y xs = foldl (\<lambda>y x. (1 - alpha) * y + alpha * x) y xs"

text \<open>
  The signal classification in the words of the specification: fixed thresholds in
  priority order, the first that matches wins.
\<close>

definition signal_for :: "real \<Rightarrow> string" where
  "signal_for v =
     (if v > 70 then ''SELL (Overbought)''
      else if v < 30 then ''BUY (Oversold)''
      else if v > 60 then ''Watch (Trending High)''
      else if v < 40 then ''Watch (Trending Low)''
      else ''HOLD / NEUTRAL'')"

text \<open>
  The reference oscillator in the words of the specification: the simple mean of the
  gains and of the losses over the most recent 14 changes, saturating at 100 without
  losses and at 0 without gains.
\<close>

definition simple_rsi :: "real list \<Rightarrow> real" where
  "simple_rsi prices =
     (let changes = price_changes prices;
          window = drop (length changes - 14) changes;
          avg_gain = sum_list (gains window) / 14;
          avg_loss = sum_list (losses window) / 14
      in if avg_loss = 0 then 100
         else if avg_gain = 0 then 0
         else 100 - 100 / (1 + avg_gain / avg_loss))"

text \<open>
  The oscillator with exponential weights: the change \<open>k\<close> days before the latest one
  weighs \<open>(1/14) * (13/14) ^ k\<close>, over the whole history.
\<close>

definition wilder_average :: "real list \<Rightarrow> real" where
  "wilder_average xs = (\<Sum>i<length xs. 1 / 14 * (13 / 14) ^ (length xs - 1 - i) * xs ! i)"

definition wilder_rsi :: "real list \<Rightarrow> real" where
  "wilder_rsi prices =
     (let avg_gain = wilder_average (gains (price_changes prices));
          avg_loss = wilder_average (losses (price_changes prices))
      in if avg_loss = 0 then 100 else 100 - 100 / (1 + avg_gain / avg_loss))"

text \<open>
  The volatility in the words of the specification: day-over-day percentage returns and
  their sample standard deviation with the \<open>n - 1\<close> denominator.
\<close>

definition daily_returns :: "real list \<Rightarrow> real list" where
  "daily_returns prices = map2 (\<lambda>prev cur. (cur - prev) / prev) prices (tl prices)"

definition sample_std :: "real list \<Rightarrow> real" where
  "sample_std xs =
     (let n = length xs; mean = sum_list xs / real n
      in sqrt (sum_list (map (\<lambda>x. (x - mean)\<^sup>2) xs) / (real n - 1)))"

text \<open>
  Example tables: the rows of one instrument on consecutive days, in date order, with the
  given prices.
\<close>

fun rows_from :: "nat \<Rightarrow> string \<Rightarrow> real list \<Rightarrow> dataframe" where
  "rows_from i ticker [] = []"
| "rows_from i ticker (p # ps) =
     \<lparr>date = int i, product_id = ticker, product_name = ticker, avg_price = p,
      qty_sold = 0, cells = Map.empty\<rparr> # rows_from (Suc i) ticker ps"

definition table_of :: "string \<Rightarrow> real list \<Rightarrow> dataframe" where
  "table_of ticker prices = rows_from 0 ticker prices"

section \<open>Properties\<close>

lemma length_diff: "length (diff xs) = length xs"
  by (cases xs) (simp_all add: diff_def)

lemma length_ewm_from: "length (ewm_from a y xs) = length xs"
  by (induction xs arbitrary: y) (simp_all add: Let_def)

lemma length_ewm: "length (ewm a xs) = length xs"
  by (cases xs) (simp_all add: ewm_def length_ewm_from)

lemma length_ewm_mean: "length (ewm_mean a m xs) = length xs"
  by (simp add: ewm_mean_def length_ewm)

lemma length_momentum_rsi: "length (momentum_rsi close w) = length close"
  by (simp add: momentum_rsi_def Let_def length_ewm_mean up_direction_def
      down_direction_def length_diff)

lemma length_pct_change: "length (pct_change xs) = length xs"
  by (cases xs) (simp_all add: pct_change_def)

lemma iloc_last_nonempty: "xs \<noteq> [] \<Longrightarrow> iloc_last xs = Inr (last xs)"
  by (cases xs) simp_all

lemma length_setitem: "length vals = length frame \<Longrightarrow> length (setitem frame name vals) = length frame"
  by (simp add: setitem_def)

lemma getitem_setitem_same:
  "length vals = length frame \<Longrightarrow> getitem (setitem frame name vals) name = Inr vals"
proof (induction frame arbitrary: vals)
  case Nil
  then show ?case by (simp add: setitem_def)
next
  case (Cons r rs)
  then obtain v vs where vals: "vals = v # vs" and len: "length vs = length rs"
    by (cases vals) auto
  from Cons.IH [OF len] show ?case
    by (simp add: vals setitem_def)
qed

lemma getitem_setitem_other:
  "length vals = length frame \<Longrightarrow> name' \<noteq> name \<Longrightarrow>
   getitem (setitem frame name vals) name' = getitem frame name'"
proof (induction frame arbitrary: vals)
  case Nil
  then show ?case by (simp add: setitem_def)
next
  case (Cons r rs)
  then obtain v vs where vals: "vals = v # vs" and len: "length vs = length rs"
    by (cases vals) auto
  from Cons.IH [OF len Cons.prems(2)] Cons.prems(2) show ?case
    by (simp add: vals setitem_def split: option.splits sum.splits)
qed

lemma avg_price_setitem:
  "length vals = length frame \<Longrightarrow> map avg_price (setitem frame name vals) = map avg_price frame"
proof (induction frame arbitrary: vals)
  case Nil
  then show ?case by (simp add: setitem_def)
next
  case (Cons r rs)
  then obtain v vs where vals: "vals = v # vs" and len: "length vs = length rs"
    by (cases vals) auto
  from Cons.IH [OF len] show ?case
    by (simp add: vals setitem_def)
qed

lemma dict_set_fresh: "k \<notin> fst ` set kvs \<Longrightarrow> dict_set kvs k v = kvs @ [(k, v)]"
  by (induction kvs) auto

lemma mset_sort_values: "mset (sort_values ties rows) = mset rows"
  by (simp add: sort_values_def)

lemma sorted_sort_values: "sorted (map date (sort_values ties rows))"
  by (simp add: sort_values_def)

lemma length_sort_values: "length (sort_values ties rows) = length rows"
  using mset_sort_values [of ties rows] by (rule mset_eq_length)

lemma length_stock_prices:
  "length (stock_prices ties table t) = length (filter (\<lambda>r. product_id r = t) table)"
  by (simp add: stock_prices_def length_sort_values)

lemma set_stock_prices:
  "set (stock_prices ties table t) = avg_price ` set (filter (\<lambda>r. product_id r = t) table)"
  using mset_eq_setD [OF mset_sort_values [of ties "filter (\<lambda>r. product_id r = t) table"]]
  by (simp add: stock_prices_def)

lemma date_ordered_sort_values:
  "date_ordered table t (sort_values ties (filter (\<lambda>r. product_id r = t) table))"
  by (simp add: date_ordered_def mset_sort_values sorted_sort_values)

lemma filter_key_distinct:
  "distinct (map f xs) \<Longrightarrow> k \<in> set xs \<Longrightarrow> filter (\<lambda>x. f k = f x) xs = [k]"
proof (induction xs)
  case Nil
  then show ?case by simp
next
  case (Cons x xs)
  show ?case
  proof (cases "k = x")
    case True
    have "filter (\<lambda>y. f x = f y) xs = []"
      using Cons.prems(1) by (auto simp: filter_empty_conv)
    with True show ?thesis by simp
  next
    case False
    with Cons.prems have k: "k \<in> set xs"
      by simp
    then have "f k \<in> f ` set xs"
      by simp
    moreover have "f x \<notin> f ` set xs"
      using Cons.prems(1) by simp
    ultimately have "f k \<noteq> f x"
      by metis
    with Cons k show ?thesis by simp
  qed
qed

lemma sort_key_unique:
  assumes "mset ys = mset xs" and "sorted (map f ys)" and "distinct (map f ys)"
  shows "sort_key f xs = ys"
proof (rule properties_for_sort_key [OF assms(1) _ assms(2)])
  fix k assume k: "k \<in> set ys"
  have "mset (map f ys) = mset (map f xs)"
    using assms(1) by simp
  from mset_eq_imp_distinct_iff [OF this] have dx: "distinct (map f xs)"
    using assms(3) by blast
  have kx: "k \<in> set xs"
    using k mset_eq_setD [OF assms(1)] by simp
  show "filter (\<lambda>x. f k = f x) ys = filter (\<lambda>x. f k = f x) xs"
    by (simp add: filter_key_distinct [OF assms(3) k] filter_key_distinct [OF dx kx])
qed

lemma sort_values_unique:
  assumes "mset ys = mset rows" and "sorted (map date ys)" and "distinct (map date ys)"
  shows "sort_values ties rows = ys"
proof -
  have "mset ys = mset (if mset (ties rows) = mset rows then ties rows else rows)"
    using assms(1) by simp
  then show ?thesis
    unfolding sort_values_def using assms(2,3) by (rule sort_key_unique)
qed

lemma stock_prices_unique:
  assumes "date_ordered table t rows" and "distinct (map date rows)"
  shows "stock_prices ties table t = map avg_price rows"
proof -
  from assms(1) have "mset rows = mset (filter (\<lambda>r. product_id r = t) table)"
    and "sorted (map date rows)"
    by (simp_all add: date_ordered_def)
  then have "sort_values ties (filter (\<lambda>r. product_id r = t) table) = rows"
    using assms(2) by (rule sort_values_unique)
  then show ?thesis
    by (simp add: stock_prices_def)
qed

lemma length_date_ordered:
  "date_ordered table t rows \<Longrightarrow> length rows = length (filter (\<lambda>r. product_id r = t) table)"
  unfolding date_ordered_def by (blast dest: mset_eq_length)

lemma analyze_loop_skip:
  assumes "df < length h" and "\<not> 15 \<le> length (stock_prices ties (h ! df) ticker)"
  shows "analyze_loop ties h df (ticker # rest) results =
         analyze_loop ties
           (h @ [filter (\<lambda>r. product_id r = ticker) (h ! df),
                 filter (\<lambda>r. product_id r = ticker) (h ! df),
                 sort_values ties (filter (\<lambda>r. product_id r = ticker) (h ! df))])
           df rest results"
  using assms
  by (simp add: alloc_def Let_def nth_append stock_prices_def)

lemma analyze_loop_emit:
  assumes "df < length h" and "15 \<le> length (stock_prices ties (h ! df) ticker)"
  shows "analyze_loop ties h df (ticker # rest) results =
         analyze_loop ties
           (h @ [filter (\<lambda>r. product_id r = ticker) (h ! df),
                 filter (\<lambda>r. product_id r = ticker) (h ! df),
                 setitem
                   (setitem (sort_values ties (filter (\<lambda>r. product_id r = ticker) (h ! df))) ''rsi''
                      (momentum_rsi (stock_prices ties (h ! df) ticker) 14))
                   ''pct_change'' (pct_change (stock_prices ties (h ! df) ticker))])
           df rest (dict_set results ticker (entry_of (stock_prices ties (h ! df) ticker)))"
proof -
  let ?sorted = "sort_values ties (filter (\<lambda>r. product_id r = ticker) (h ! df))"
  let ?prices = "stock_prices ties (h ! df) ticker"
  let ?f1 = "setitem ?sorted ''rsi'' (momentum_rsi ?prices 14)"
  let ?f2 = "setitem ?f1 ''pct_change'' (pct_change ?prices)"
  have len: "length ?sorted = length ?prices"
    by (simp add: stock_prices_def)
  have len1: "length (momentum_rsi ?prices 14) = length ?sorted"
    by (simp add: length_momentum_rsi len)
  have len2: "length (pct_change ?prices) = length ?f1"
    by (simp add: length_pct_change length_setitem len1 len)
  have p1: "map avg_price ?f1 = ?prices"
    by (simp add: avg_price_setitem len1) (simp add: stock_prices_def)
  have g1: "getitem ?f2 ''pct_change'' = Inr (pct_change ?prices)"
    by (rule getitem_setitem_same [OF len2])
  have g2: "getitem ?f2 ''rsi'' = Inr (momentum_rsi ?prices 14)"
    by (simp add: getitem_setitem_other [OF len2] getitem_setitem_same [OF len1])
  have ne: "momentum_rsi ?prices 14 \<noteq> []"
    using assms(2) length_momentum_rsi [of ?prices 14] by auto
  have long: "\<not> length ?sorted < 15"
    using assms(2) len by simp
  show ?thesis
    using assms(1) long
    by (auto simp: alloc_def Let_def nth_append list_update_append p1 g1 g2
        iloc_last_nonempty [OF ne] stock_prices_def [symmetric] entry_of_def split: prod.split)
qed

lemma analyze_loop_char:
  assumes "df < length h" and "distinct ts" and "set ts \<inter> fst ` set results = {}"
  shows "\<exists>h'. analyze_loop ties h df ts results =
               (h @ h', Inr (results @ entries_of ties (h ! df) ts))"
  using assms
proof (induction ts arbitrary: h results)
  case Nil
  then show ?case by (simp add: entries_of_def)
next
  case (Cons ticker rest)
  show ?case
  proof (cases "15 \<le> length (stock_prices ties (h ! df) ticker)")
    case False
    let ?new = "[filter (\<lambda>r. product_id r = ticker) (h ! df),
                 filter (\<lambda>r. product_id r = ticker) (h ! df),
                 sort_values ties (filter (\<lambda>r. product_id r = ticker) (h ! df))]"
    have step: "analyze_loop ties h df (ticker # rest) results = analyze_loop ties (h @ ?new) df rest results"
      by (rule analyze_loop_skip [OF Cons.prems(1) False])
    have "\<exists>h'. analyze_loop ties (h @ ?new) df rest results =
            ((h @ ?new) @ h', Inr (results @ entries_of ties ((h @ ?new) ! df) rest))"
      using Cons.prems by (intro Cons.IH) auto
    then obtain h' where "analyze_loop ties (h @ ?new) df rest results =
            (h @ (?new @ h'), Inr (results @ entries_of ties (h ! df) rest))"
      using Cons.prems(1) by (auto simp: nth_append)
    with step False show ?thesis
      by (auto simp: entries_of_def)
  next
    case True
    let ?e = "entry_of (stock_prices ties (h ! df) ticker)"
    let ?new = "[filter (\<lambda>r. product_id r = ticker) (h ! df),
                 filter (\<lambda>r. product_id r = ticker) (h ! df),
                 setitem
                   (setitem (sort_values ties (filter (\<lambda>r. product_id r = ticker) (h ! df))) ''rsi''
                      (momentum_rsi (stock_prices ties (h ! df) ticker) 14))
                   ''pct_change'' (pct_change (stock_prices ties (h ! df) ticker))]"
    have fresh: "ticker \<notin> fst ` set results"
      using Cons.prems(3) by auto
    have step: "analyze_loop ties h df (ticker # rest) results =
                analyze_loop ties (h @ ?new) df rest (results @ [(ticker, ?e)])"
      using analyze_loop_emit [OF Cons.prems(1) True] dict_set_fresh [OF fresh] by simp
    have "\<exists>h'. analyze_loop ties (h @ ?new) df rest (results @ [(ticker, ?e)]) =
            ((h @ ?new) @ h',
             Inr ((results @ [(ticker, ?e)]) @ entries_of ties ((h @ ?new) ! df) rest))"
      using Cons.prems by (intro Cons.IH) auto
    then obtain h' where "analyze_loop ties (h @ ?new) df rest (results @ [(ticker, ?e)]) =
            (h @ (?new @ h'), Inr (results @ (ticker, ?e) # entries_of ties (h ! df) rest))"
      using Cons.prems(1) by (auto simp: nth_append)
    with step True show ?thesis
      by (auto simp: entries_of_def)
  qed
qed

lemma set_unique_from: "set (unique_from seen xs) = set xs - set seen"
  by (induction xs arbitrary: seen) auto

lemma distinct_unique_from: "distinct (unique_from seen xs)"
  by (induction xs arbitrary: seen) (auto simp: set_unique_from)

lemma set_unique: "set (unique xs) = set xs"
  by (simp add: unique_def set_unique_from)

lemma distinct_unique: "distinct (unique xs)"
  by (simp add: unique_def distinct_unique_from)

lemma analyze_char:
  assumes "df < length h"
  shows "\<exists>h'. analyze_technical_indicators ties h df =
               (h @ h', Inr (entries_of ties (h ! df) (unique (map product_id (h ! df)))))"
  using analyze_loop_char [OF assms distinct_unique, of "map product_id (h ! df)" "[]"]
  by (simp add: analyze_technical_indicators_def)

lemma map_of_entries_of:
  "map_of (entries_of ties table (unique (map product_id table))) t =
     (if 15 \<le> length (stock_prices ties table t) then Some (entry_of (stock_prices ties table t)) else None)"
proof -
  have absent: "\<not> 15 \<le> length (stock_prices ties table t)" if "t \<notin> product_id ` set table"
  proof -
    from that have "filter (\<lambda>r. product_id r = t) table = []"
      by (auto simp: filter_empty_conv)
    then show ?thesis by (simp add: length_stock_prices)
  qed
  have "map_of (map (\<lambda>t. (t, f t)) ks) t = (if t \<in> set ks then Some (f t) else None)"
    for f :: "string \<Rightarrow> indicator" and ks
    by (induction ks) auto
  then show ?thesis
    using absent by (auto simp: entries_of_def set_unique)
qed

lemma diff_changes:
  "diff (x # rest) = None # map Some (price_changes (x # rest))"
  by (simp add: diff_def price_changes_def zip_map2 map_zip_map2 comp_def split_def)

lemma up_direction_gains:
  "up_direction (diff (x # rest)) = 0 # gains (price_changes (x # rest))"
  by (simp add: diff_changes up_direction_def gains_def)

lemma down_direction_losses:
  "down_direction (diff (x # rest)) = 0 # losses (price_changes (x # rest))"
  by (simp add: diff_changes down_direction_def losses_def)

lemma length_price_changes: "length (price_changes prices) = length prices - 1"
  by (simp add: price_changes_def)

lemma last_ewm_from: "last (y # ewm_from alpha y xs) = smooth alpha y xs"
  unfolding smooth_def by (induction xs arbitrary: y) (simp_all add: Let_def)

lemma last_ewm: "last (ewm alpha (x # xs)) = smooth alpha x xs"
  by (simp only: ewm_def list.case last_ewm_from)

lemma last_enumerate: "ys \<noteq> [] \<Longrightarrow> last (enumerate n ys) = (n + length ys - 1, last ys)"
  by (simp add: enumerate_eq_zip last_zip)

lemma last_ewm_mean:
  assumes "m \<le> Suc (length xs)"
  shows "last (ewm_mean alpha m (x # xs)) = Fin (smooth alpha x xs)"
proof -
  have ne: "ewm alpha (x # xs) \<noteq> []" by (simp add: ewm_def)
  have "last (ewm_mean alpha m (x # xs)) =
        (\<lambda>(i, y). if m \<le> i + 1 then Fin y else NaN) (last (enumerate 0 (ewm alpha (x # xs))))"
  proof -
    have "enumerate 0 (ewm alpha (x # xs)) \<noteq> []"
      using ne by (simp add: enumerate_eq_zip)
    then show ?thesis
      unfolding ewm_mean_def by (rule last_map)
  qed
  also have "\<dots> = Fin (smooth alpha x xs)"
    using assms by (simp add: last_enumerate [OF ne] length_ewm last_ewm)
  finally show ?thesis .
qed

lemma last_momentum_rsi:
  assumes "w \<le> Suc (length rest)"
  shows "last (momentum_rsi (x # rest) w) =
         rsi_point (Fin (smooth (1 / real w) 0 (gains (price_changes (x # rest)))))
                   (Fin (smooth (1 / real w) 0 (losses (price_changes (x # rest)))))"
proof -
  let ?g = "gains (price_changes (x # rest))" and ?l = "losses (price_changes (x # rest))"
  let ?up = "ewm_mean (1 / real w) w (0 # ?g)" and ?dn = "ewm_mean (1 / real w) w (0 # ?l)"
  have lg: "length ?g = length rest" and ll: "length ?l = length rest"
    by (simp_all add: gains_def losses_def length_price_changes)
  have len: "length ?up = length ?dn" and ne: "?up \<noteq> []" "?dn \<noteq> []"
    using length_ewm_mean [of "1 / real w" w "0 # ?g"] length_ewm_mean [of "1 / real w" w "0 # ?l"]
    by (auto simp: lg ll)
  have "momentum_rsi (x # rest) w = map2 rsi_point ?up ?dn"
    by (simp add: momentum_rsi_def Let_def up_direction_gains down_direction_losses)
  then have "last (momentum_rsi (x # rest) w) = rsi_point (last ?up) (last ?dn)"
    using ne len by (simp add: last_map last_zip)
  then show ?thesis
    using assms by (simp add: last_ewm_mean lg ll)
qed

lemma smooth_nonneg:
  "0 \<le> alpha \<Longrightarrow> alpha \<le> 1 \<Longrightarrow> 0 \<le> y \<Longrightarrow> \<forall>x \<in> set xs. 0 \<le> x \<Longrightarrow> 0 \<le> smooth alpha y xs"
  unfolding smooth_def by (induction xs arbitrary: y) simp_all

lemma smooth_zero: "\<forall>x \<in> set xs. x = 0 \<Longrightarrow> smooth alpha 0 xs = 0"
  unfolding smooth_def by (induction xs) simp_all

lemma smooth_pos_from_pos:
  "0 < alpha \<Longrightarrow> alpha < 1 \<Longrightarrow> 0 < y \<Longrightarrow> \<forall>x \<in> set xs. 0 \<le> x \<Longrightarrow> 0 < smooth alpha y xs"
  unfolding smooth_def
proof (induction xs arbitrary: y)
  case Nil
  then show ?case by simp
next
  case (Cons x xs)
  have "0 < (1 - alpha) * y + alpha * x"
    using Cons.prems by (simp add: add_pos_nonneg)
  with Cons show ?case by simp
qed

lemma smooth_pos:
  assumes "0 < alpha" "alpha < 1" "0 \<le> y" "\<forall>x \<in> set xs. 0 \<le> x" "\<exists>x \<in> set xs. 0 < x"
  shows "0 < smooth alpha y xs"
  using assms(3-5)
proof (induction xs arbitrary: y)
  case Nil
  then show ?case by simp
next
  case (Cons x xs)
  have step: "smooth alpha y (x # xs) = smooth alpha ((1 - alpha) * y + alpha * x) xs"
    by (simp add: smooth_def)
  have nn: "0 \<le> (1 - alpha) * y + alpha * x"
    using Cons.prems assms(1,2) by simp
  show ?case
  proof (cases "0 < x")
    case True
    then have "0 < (1 - alpha) * y + alpha * x"
      using Cons.prems assms(1,2) by (simp add: add_nonneg_pos)
    then show ?thesis
      using Cons.prems assms(1,2) step by (simp add: smooth_pos_from_pos)
  next
    case False
    then have "\<exists>x \<in> set xs. 0 < x" using Cons.prems by auto
    then show ?thesis
      using Cons.IH [OF nn] Cons.prems step by simp
  qed
qed

lemma gains_nonneg: "\<forall>x \<in> set (gains cs). 0 \<le> x"
  by (auto simp: gains_def)

lemma losses_nonneg: "\<forall>x \<in> set (losses cs). 0 \<le> x"
  by (auto simp: losses_def)

lemma rsi_point_fin:
  assumes "0 \<le> u" "0 \<le> d"
  shows "rsi_point (Fin u) (Fin d) = Fin (if d = 0 then 100 else 100 - 100 / (1 + u / d))"
proof (cases "d = 0")
  case True
  then show ?thesis by (simp add: rsi_point_def)
next
  case False
  then have "0 < d" using assms by simp
  then have "0 \<le> u / d" using assms by simp
  then have "1 + u / d \<noteq> 0" by linarith
  then show ?thesis using False by (simp add: rsi_point_def fsub_def)
qed

lemma rsi_value_bounds:
  assumes "0 \<le> u" "0 \<le> d"
  shows "0 \<le> (if d = 0 then 100 else 100 - 100 / (1 + u / d) :: real)"
    and "(if d = 0 then 100 else 100 - 100 / (1 + u / d) :: real) \<le> 100"
proof -
  have "0 \<le> u / d" using assms by simp
  then have one: "1 \<le> 1 + u / d" by simp
  then have "100 / (1 + u / d) \<le> 100 / 1"
    by (intro divide_left_mono) simp_all
  then show "0 \<le> (if d = 0 then 100 else 100 - 100 / (1 + u / d) :: real)" by simp
  have "0 \<le> 100 / (1 + u / d)" using one by simp
  then show "(if d = 0 then 100 else 100 - 100 / (1 + u / d) :: real) \<le> 100" by simp
qed

lemma smooth_Cons: "smooth a y (x # xs) = smooth a ((1 - a) * y + a * x) xs"
  by (simp add: smooth_def)

lemma smooth_Nil: "smooth a y [] = y"
  by (simp add: smooth_def)

lemma price_changes_Cons: "price_changes (x # y # ys) = (y - x) # price_changes (y # ys)"
  by (simp add: price_changes_def)

lemma price_changes_single: "price_changes [x] = []"
  by (simp add: price_changes_def)

lemma avg_price_rows_from: "map avg_price (rows_from i t ps) = ps"
  by (induction ps arbitrary: i) simp_all

lemma product_id_rows_from: "r \<in> set (rows_from i t ps) \<Longrightarrow> product_id r = t"
  by (induction ps arbitrary: i) auto

lemma date_rows_from: "r \<in> set (rows_from i t ps) \<Longrightarrow> int i \<le> date r"
  by (induction ps arbitrary: i) fastforce+

lemma sorted_rows_from: "sorted (map date (rows_from i t ps))"
proof (induction ps arbitrary: i)
  case Nil
  show ?case by simp
next
  case (Cons p ps)
  have "int i \<le> date r" if "r \<in> set (rows_from (Suc i) t ps)" for r
    using date_rows_from [OF that] by simp
  with Cons show ?case by auto
qed

lemma distinct_dates_rows_from: "distinct (map date (rows_from i t ps))"
proof (induction ps arbitrary: i)
  case Nil
  show ?case by simp
next
  case (Cons p ps)
  have "int i \<noteq> date r" if "r \<in> set (rows_from (Suc i) t ps)" for r
    using date_rows_from [OF that] by simp
  with Cons show ?case by auto
qed

lemma date_ordered_table_of: "date_ordered (table_of t ps) t (table_of t ps)"
proof -
  have "filter (\<lambda>r. product_id r = t) (rows_from 0 t ps) = rows_from 0 t ps"
    by (simp add: filter_id_conv product_id_rows_from)
  then show ?thesis
    by (simp add: date_ordered_def table_of_def sorted_rows_from)
qed

lemma distinct_dates_table_of: "distinct (map date (table_of t ps))"
  by (simp add: table_of_def distinct_dates_rows_from)

lemma avg_price_table_of: "map avg_price (table_of t ps) = ps"
  by (simp add: table_of_def avg_price_rows_from)

lemma stock_prices_table_of: "stock_prices ties (table_of t ps) t = ps"
  using stock_prices_unique [OF date_ordered_table_of distinct_dates_table_of, of ties t ps]
  by (simp add: avg_price_table_of)

lemma smooth_snoc: "smooth a y (xs @ [x]) = (1 - a) * smooth a y xs + a * x"
  by (simp add: smooth_def)

lemma smooth_closed:
  "smooth a y xs = (1 - a) ^ length xs * y + (\<Sum>i<length xs. a * (1 - a) ^ (length xs - 1 - i) * xs ! i)"
proof (induction xs rule: rev_induct)
  case Nil
  show ?case by (simp add: smooth_def)
next
  case (snoc x xs)
  let ?n = "length xs"
  have "(\<Sum>i<Suc ?n. a * (1 - a) ^ (Suc ?n - 1 - i) * (xs @ [x]) ! i) =
        (\<Sum>i<?n. a * (1 - a) ^ (?n - i) * xs ! i) + a * x"
    by (simp add: nth_append)
  also have "(\<Sum>i<?n. a * (1 - a) ^ (?n - i) * xs ! i) =
             (\<Sum>i<?n. (1 - a) * (a * (1 - a) ^ (?n - 1 - i) * xs ! i))"
  proof (rule sum.cong)
    fix i assume "i \<in> {..<?n}"
    then have "?n - i = Suc (?n - 1 - i)" by auto
    then show "a * (1 - a) ^ (?n - i) * xs ! i = (1 - a) * (a * (1 - a) ^ (?n - 1 - i) * xs ! i)"
      by simp
  qed simp
  also have "\<dots> = (1 - a) * (\<Sum>i<?n. a * (1 - a) ^ (?n - 1 - i) * xs ! i)"
    by (simp add: sum_distrib_left)
  finally have s: "(\<Sum>i<Suc ?n. a * (1 - a) ^ (Suc ?n - 1 - i) * (xs @ [x]) ! i) =
        (1 - a) * (\<Sum>i<?n. a * (1 - a) ^ (?n - 1 - i) * xs ! i) + a * x" .
  show ?case
    unfolding smooth_snoc snoc.IH using s by (simp add: algebra_simps)
qed

lemma smooth_wilder: "smooth (1 / 14) 0 xs = wilder_average xs"
  by (simp add: smooth_closed wilder_average_def)

lemma foldl_fadd_Fin: "foldl fadd (Fin a) (map Fin ys) = Fin (a + sum_list ys)"
  by (induction ys arbitrary: a) (simp_all add: add.assoc)

lemma fsum_Fin: "fsum (map Fin ys) = Fin (sum_list ys)"
  by (simp add: fsum_def foldl_fadd_Fin)

lemma filter_not_NaN_Fin: "filter (\<lambda>v. v \<noteq> NaN) (map Fin ys) = map Fin ys"
  by (induction ys) simp_all

lemma std_finite:
  assumes "2 \<le> length ys"
  shows "std (NaN # map Fin ys) = Fin (sample_std ys)"
proof -
  let ?n = "length ys"
  let ?avg = "sum_list ys / real ?n"
  have sq: "map (\<lambda>v. fmul (fsub (Fin ?avg) v) (fsub (Fin ?avg) v)) (map Fin ys) =
            map Fin (map (\<lambda>y. (y - ?avg)\<^sup>2) ys)"
    by (simp add: fsub_def power2_eq_square algebra_simps)
  have nn: "0 \<le> sum_list (map (\<lambda>y. (y - ?avg)\<^sup>2) ys) / real (?n - 1)"
    by (intro divide_nonneg_nonneg sum_list_nonneg) auto
  have r: "real (?n - 1) = real ?n - 1"
    using assms by (simp add: of_nat_diff)
  have nz: "real (?n - 1) \<noteq> 0"
    using assms by simp
  have f: "filter (\<lambda>v. v \<noteq> NaN) (NaN # map Fin ys) = map Fin ys"
    by (simp add: filter_not_NaN_Fin)
  have c: "\<not> length (map Fin ys) \<le> 1"
    using assms by simp
  have nz': "real ?n \<noteq> 0"
    using assms by auto
  have avg: "fdiv (fsum (map Fin ys)) (Fin (real (length (map Fin ys)))) = Fin ?avg"
    using nz' by (simp add: fsum_Fin)
  have "std (NaN # map Fin ys) =
        fsqrt (fdiv (fsum (map (\<lambda>v. fmul (fsub (Fin ?avg) v) (fsub (Fin ?avg) v)) (map Fin ys)))
                 (Fin (real (length (map Fin ys) - 1))))"
    unfolding std_def Let_def f avg using c by (simp only: if_False)
  also have "\<dots> = fsqrt (fdiv (fsum (map Fin (map (\<lambda>y. (y - ?avg)\<^sup>2) ys))) (Fin (real (?n - 1))))"
    by (simp only: sq length_map)
  also have "\<dots> = fsqrt (fdiv (Fin (sum_list (map (\<lambda>y. (y - ?avg)\<^sup>2) ys))) (Fin (real (?n - 1))))"
    by (simp only: fsum_Fin)
  also have "\<dots> = fsqrt (Fin (sum_list (map (\<lambda>y. (y - ?avg)\<^sup>2) ys) / real (?n - 1)))"
    using nz by simp
  also have "\<dots> = Fin (sqrt (sum_list (map (\<lambda>y. (y - ?avg)\<^sup>2) ys) / real (?n - 1)))"
    using nn by simp
  finally have "std (NaN # map Fin ys) =
      Fin (sqrt (sum_list (map (\<lambda>y. (y - ?avg)\<^sup>2) ys) / (real ?n - 1)))"
    unfolding r .
  then show ?thesis
    by (simp add: sample_std_def Let_def)
qed

lemma pct_change_returns:
  assumes "\<forall>p \<in> set (x # rest). p \<noteq> 0"
  shows "pct_change (x # rest) = NaN # map Fin (daily_returns (x # rest))"
proof -
  have "map2 (\<lambda>prev cur. fsub (fdiv (Fin cur) (Fin prev)) (Fin 1)) (x # rest) rest =
        map Fin (map2 (\<lambda>prev cur. (cur - prev) / prev) (x # rest) rest)"
  proof -
    have "fsub (fdiv (Fin cur) (Fin prev)) (Fin 1) = Fin ((cur - prev) / prev)"
      if "(prev, cur) \<in> set (zip (x # rest) rest)" for prev cur
    proof -
      from that have "prev \<in> set (x # rest)" by (rule set_zip_leftD)
      with assms have "prev \<noteq> 0" by blast
      then show ?thesis by (simp add: fsub_def diff_divide_distrib)
    qed
    then show ?thesis by auto
  qed
  then show ?thesis
    by (simp add: pct_change_def daily_returns_def)
qed

lemma length_daily_returns: "length (daily_returns ps) = length ps - 1"
  by (simp add: daily_returns_def)

lemma volatility_entry:
  assumes "3 \<le> length ps" and "\<forall>p \<in> set ps. p \<noteq> 0"
  shows "volatility (entry_of ps) = Fin (sample_std (daily_returns ps) * sqrt 252)"
proof -
  obtain x rest where ps: "ps = x # rest" using assms(1) by (cases ps) auto
  have "2 \<le> length (daily_returns ps)"
    using assms(1) by (simp add: length_daily_returns)
  then show ?thesis
    using assms(2) by (simp add: entry_of_def ps pct_change_returns std_finite del: set_simps)
qed

lemma snd_analyze:
  assumes "df < length h"
  shows "snd (analyze_technical_indicators ties h df) =
         Inr (entries_of ties (h ! df) (unique (map product_id (h ! df))))"
  using analyze_char [OF assms, of ties] by auto

lemma emitted_char:
  assumes "df < length h"
  shows "emitted (analyze_technical_indicators ties h df) t =
         (if 15 \<le> length (stock_prices ties (h ! df) t)
          then Some (entry_of (stock_prices ties (h ! df) t)) else None)"
  by (simp only: emitted_def snd_analyze [OF assms] sum.case map_of_entries_of)

lemma rsi_entry:
  assumes "15 \<le> length ps"
  shows "rsi (entry_of ps) = Fin (wilder_rsi ps)"
proof -
  obtain x rest where ps: "ps = x # rest" using assms by (cases ps) auto
  have w: "14 \<le> Suc (length rest)" using assms ps by simp
  let ?g = "smooth (1 / 14) 0 (gains (price_changes ps))"
  let ?l = "smooth (1 / 14) 0 (losses (price_changes ps))"
  have g: "0 \<le> ?g" by (rule smooth_nonneg) (simp_all add: gains_nonneg)
  have l: "0 \<le> ?l" by (rule smooth_nonneg) (simp_all add: losses_nonneg)
  have "rsi (entry_of ps) = rsi_point (Fin ?g) (Fin ?l)"
    using last_momentum_rsi [OF w, of x] by (simp add: entry_of_def ps)
  also have "\<dots> = Fin (if ?l = 0 then 100 else 100 - 100 / (1 + ?g / ?l))"
    by (rule rsi_point_fin [OF g l])
  finally show ?thesis
    by (simp add: wilder_rsi_def Let_def smooth_wilder)
qed

lemma wilder_rsi_bounds: "0 \<le> wilder_rsi ps" "wilder_rsi ps \<le> 100"
proof -
  let ?g = "smooth (1 / 14) 0 (gains (price_changes ps))"
  let ?l = "smooth (1 / 14) 0 (losses (price_changes ps))"
  have g: "0 \<le> ?g" by (rule smooth_nonneg) (simp_all add: gains_nonneg)
  have l: "0 \<le> ?l" by (rule smooth_nonneg) (simp_all add: losses_nonneg)
  have eq: "wilder_rsi ps = (if ?l = 0 then 100 else 100 - 100 / (1 + ?g / ?l))"
    by (simp add: wilder_rsi_def Let_def smooth_wilder)
  show "0 \<le> wilder_rsi ps" unfolding eq by (rule rsi_value_bounds(1) [OF g l])
  show "wilder_rsi ps \<le> 100" unfolding eq by (rule rsi_value_bounds(2) [OF g l])
qed

lemma signal_entry:
  "signal_logic (Fin v) =
     (signal_for v,
      if v > 70 then ''red'' else if v < 30 then ''green''
      else if v > 60 then ''orange'' else if v < 40 then ''blue'' else ''gray'')"
  by (simp add: signal_logic_def signal_for_def Let_def)

lemma signal_logic_pairs:
  "signal_logic x \<in>
     {(''SELL (Overbought)'', ''red''), (''BUY (Oversold)'', ''green''),
      (''Watch (Trending High)'', ''orange''), (''Watch (Trending Low)'', ''blue''),
      (''HOLD / NEUTRAL'', ''gray'')}"
  by (simp add: signal_logic_def Let_def)

lemma zip_tl_sorted_wrt:
  "sorted_wrt P xs \<Longrightarrow> (a, b) \<in> set (zip xs (tl xs)) \<Longrightarrow> P a b"
proof (induction xs)
  case Nil
  then show ?case by simp
next
  case (Cons x xs)
  show ?case
  proof (cases xs)
    case Nil
    with Cons.prems show ?thesis by simp
  next
    case (Cons y ys)
    with Cons.prems Cons.IH show ?thesis by auto
  qed
qed

lemma changes_increasing:
  assumes "sorted_wrt (<) ps"
  shows "\<forall>c \<in> set (price_changes ps). 0 < c"
  using zip_tl_sorted_wrt [OF assms] by (auto simp: price_changes_def)

lemma changes_decreasing:
  assumes "sorted_wrt (>) ps"
  shows "\<forall>c \<in> set (price_changes ps). c < 0"
  using zip_tl_sorted_wrt [OF assms] by (auto simp: price_changes_def)

lemma wilder_rsi_increasing:
  assumes "sorted_wrt (<) ps"
  shows "wilder_rsi ps = 100"
proof -
  have "\<forall>x \<in> set (losses (price_changes ps)). x = 0"
    using changes_increasing [OF assms] by (auto simp: losses_def)
  then have "smooth (1 / 14) 0 (losses (price_changes ps)) = 0"
    by (rule smooth_zero)
  then show ?thesis
    by (simp add: wilder_rsi_def Let_def smooth_wilder [symmetric])
qed

lemma wilder_rsi_decreasing:
  assumes "sorted_wrt (>) ps" and "2 \<le> length ps"
  shows "wilder_rsi ps = 0"
proof -
  have neg: "\<forall>c \<in> set (price_changes ps). c < 0"
    by (rule changes_decreasing [OF assms(1)])
  then have "\<forall>x \<in> set (gains (price_changes ps)). x = 0"
    by (auto simp: gains_def)
  then have g: "smooth (1 / 14) 0 (gains (price_changes ps)) = 0"
    by (rule smooth_zero)
  have "price_changes ps \<noteq> []"
    using assms(2) length_price_changes [of ps] by auto
  then have "\<exists>x \<in> set (losses (price_changes ps)). 0 < x"
    using neg by (cases "price_changes ps") (auto simp: losses_def)
  then have "0 < smooth (1 / 14) 0 (losses (price_changes ps))"
    by (intro smooth_pos) (simp_all add: losses_nonneg)
  then show ?thesis
    using g by (simp add: wilder_rsi_def Let_def smooth_wilder [symmetric])
qed

lemma zip_tl_members: "(a, b) \<in> set (zip ps (tl ps)) \<Longrightarrow> a \<in> set ps \<and> b \<in> set ps"
  by (cases ps) (auto dest: set_zip_leftD set_zip_rightD)

lemma sum_list_zeros: "\<forall>x \<in> set xs. x = (0::real) \<Longrightarrow> sum_list xs = 0"
  by (induction xs) simp_all

lemma sum_list_squares_zeros: "\<forall>x \<in> set xs. x = (0::real) \<Longrightarrow> sum_list (map (\<lambda>x. x\<^sup>2) xs) = 0"
  by (induction xs) simp_all

lemma constant_entry:
  assumes "\<forall>p \<in> set ps. p = c" and "15 \<le> length ps" and "c \<noteq> 0"
  shows "entry_of ps =
         \<lparr>rsi = Fin 100, volatility = Fin 0,
          signal = ''SELL (Overbought)'', signal_color = ''red''\<rparr>"
proof -
  have ps: "ps = replicate (length ps) c"
    using assms(1) by (simp add: replicate_length_same)
  have zc: "\<forall>x \<in> set (price_changes ps). x = 0"
  proof
    fix x assume "x \<in> set (price_changes ps)"
    then obtain a b where ab: "(a, b) \<in> set (zip ps (tl ps))" and x: "x = b - a"
      by (auto simp: price_changes_def)
    from zip_tl_members [OF ab] assms(1) have "a = c" "b = c" by blast+
    with x show "x = 0" by simp
  qed
  have "\<forall>x \<in> set (losses (price_changes ps)). x = 0"
    using zc by (auto simp: losses_def)
  then have "smooth (1 / 14) 0 (losses (price_changes ps)) = 0"
    by (rule smooth_zero)
  then have w: "wilder_rsi ps = 100"
    by (simp add: wilder_rsi_def Let_def smooth_wilder [symmetric])
  have r: "rsi (entry_of ps) = Fin 100"
    using rsi_entry [OF assms(2)] w by simp
  have zr: "\<forall>x \<in> set (daily_returns ps). x = 0"
  proof
    fix x assume "x \<in> set (daily_returns ps)"
    then obtain a b where ab: "(a, b) \<in> set (zip ps (tl ps))" and x: "x = (b - a) / a"
      by (auto simp: daily_returns_def)
    from zip_tl_members [OF ab] assms(1) have "a = c" "b = c" by blast+
    with x show "x = 0" by simp
  qed
  have "sum_list (daily_returns ps) = 0"
    by (rule sum_list_zeros [OF zr])
  moreover have "sum_list (map (\<lambda>x. x\<^sup>2) (daily_returns ps)) = 0"
    by (rule sum_list_squares_zeros [OF zr])
  ultimately have s: "sample_std (daily_returns ps) = 0"
    by (simp add: sample_std_def Let_def)
  have nz: "\<forall>p \<in> set ps. p \<noteq> 0"
    using assms(1,3) by auto
  have v: "volatility (entry_of ps) = Fin 0"
    using volatility_entry [OF _ nz] assms(2) s by simp
  have "signal (entry_of ps) = ''SELL (Overbought)''" "signal_color (entry_of ps) = ''red''"
    using r by (simp_all add: entry_of_def signal_logic_def Let_def)
  with r v show ?thesis
    by (cases "entry_of ps") simp
qed

lemma fst_analyze:
  assumes "df < length h"
  shows "take (length h) (fst (analyze_technical_indicators ties h df)) = h"
  using analyze_char [OF assms, of ties] by auto

lemma keys_entries_of:
  "fst ` set (entries_of ties table (unique (map product_id table))) =
   {t. 15 \<le> length (filter (\<lambda>r. product_id r = t) table)}"
proof -
  have "t \<in> product_id ` set table" if "15 \<le> length (filter (\<lambda>r. product_id r = t) table)" for t
  proof (rule ccontr)
    assume "t \<notin> product_id ` set table"
    then have "filter (\<lambda>r. product_id r = t) table = []"
      by (auto simp: filter_empty_conv)
    with that show False by simp
  qed
  then show ?thesis
    by (auto simp: entries_of_def set_unique length_stock_prices image_iff)
qed

lemma emitted_table_of:
  "15 \<le> length ps \<Longrightarrow>
   emitted (analyze_technical_indicators ties [table_of t ps] 0) t = Some (entry_of ps)"
  by (simp add: emitted_char stock_prices_table_of)

lemma product_ids_rows_from: "map product_id (rows_from i t ps) = replicate (length ps) t"
  by (induction ps arbitrary: i) simp_all

lemma unique_from_replicate:
  "unique_from seen (replicate n t) = (if n = 0 \<or> t \<in> set seen then [] else [t])"
  by (induction n arbitrary: seen) auto

lemma snd_analyze_table_of:
  "15 \<le> length ps \<Longrightarrow>
   snd (analyze_technical_indicators ties [table_of t ps] 0) = Inr [(t, entry_of ps)]"
proof -
  assume long: "15 \<le> length ps"
  have "unique (map product_id (table_of t ps)) = [t]"
    using long by (auto simp: table_of_def product_ids_rows_from unique_def unique_from_replicate)
  then show ?thesis
    using long by (simp add: snd_analyze entries_of_def stock_prices_table_of)
qed

lemma emitted_sorted:
  assumes "df < length h"
    and "15 \<le> length (filter (\<lambda>r. product_id r = t) (h ! df))"
  shows "\<exists>rows. date_ordered (h ! df) t rows
           \<and> stock_prices ties (h ! df) t = map avg_price rows
           \<and> emitted (analyze_technical_indicators ties h df) t =
               Some (entry_of (map avg_price rows))"
proof -
  let ?rows = "sort_values ties (filter (\<lambda>r. product_id r = t) (h ! df))"
  have "date_ordered (h ! df) t ?rows"
    by (rule date_ordered_sort_values)
  moreover have "stock_prices ties (h ! df) t = map avg_price ?rows"
    by (simp add: stock_prices_def)
  moreover have "emitted (analyze_technical_indicators ties h df) t =
      Some (entry_of (map avg_price ?rows))"
    using assms by (simp add: emitted_char length_stock_prices) (simp add: stock_prices_def)
  ultimately show ?thesis by blast
qed

lemma emitted_distinct:
  assumes "df < length h"
    and "date_ordered (h ! df) t rows" and "distinct (map date rows)" and "15 \<le> length rows"
  shows "emitted (analyze_technical_indicators ties h df) t =
         Some (entry_of (map avg_price rows))"
  using assms(1,4) stock_prices_unique [OF assms(2,3), of ties]
  by (simp add: emitted_char)

lemma length_filter_table_of:
  "length (filter (\<lambda>r. product_id r = t) (table_of t ps)) = length ps"
  using length_stock_prices [of id "table_of t ps" t] by (simp add: stock_prices_table_of)

section \<open>The claims\<close>

text \<open>
  C1. For every instrument in the result, the momentum is a number and the signal is the
  threshold function of that number alone: above 70 sell, else below 30 buy, else above
  60 watch high, else below 40 watch low, else hold.
\<close>

theorem signal_is_threshold_function:
  assumes "df < length h"
    and "emitted (analyze_technical_indicators ties h df) t = Some r"
  shows "\<exists>v. rsi r = Fin v \<and> signal r = signal_for v"
proof -
  let ?ps = "stock_prices ties (h ! df) t"
  from assms have long: "15 \<le> length ?ps" and r: "r = entry_of ?ps"
    by (auto simp: emitted_char split: if_splits)
  have v: "rsi r = Fin (wilder_rsi ?ps)"
    unfolding r by (rule rsi_entry [OF long])
  then have "signal r = signal_for (wilder_rsi ?ps)"
    by (simp add: r entry_of_def signal_entry)
  with v show ?thesis by blast
qed

theorem signal_is_threshold_function_witness:
  "\<exists>r. emitted (analyze_technical_indicators id
            [table_of ''TCS.NS'' [100, 101, 102, 103, 104, 105, 106, 107, 108, 109, 110, 111,
               112, 113, 114]] 0) ''TCS.NS'' = Some r
       \<and> rsi r = Fin 100 \<and> signal r = ''SELL (Overbought)''"
proof -
  let ?ps = "[100, 101, 102, 103, 104, 105, 106, 107, 108, 109, 110, 111, 112, 113, 114] :: real list"
  let ?h = "[table_of ''TCS.NS'' ?ps]"
  have e: "emitted (analyze_technical_indicators id ?h 0) ''TCS.NS'' = Some (entry_of ?ps)"
    by (rule emitted_table_of) simp
  have "rsi (entry_of ?ps) = Fin (wilder_rsi ?ps)"
    by (rule rsi_entry) simp
  moreover have "wilder_rsi ?ps = 100"
    by (rule wilder_rsi_increasing) simp
  ultimately have r: "rsi (entry_of ?ps) = Fin 100" by simp
  have "0 < length ?h" by simp
  from signal_is_threshold_function [OF this e] r
  have "signal (entry_of ?ps) = signal_for 100" by auto
  then have "signal (entry_of ?ps) = ''SELL (Overbought)''"
    by (simp add: signal_for_def)
  with e r show ?thesis by blast
qed

text \<open>The examples of the specification for the classification.\<close>

lemma signal_for_examples:
  "signal_for 75 = ''SELL (Overbought)''"
  "signal_for 25 = ''BUY (Oversold)''"
  "signal_for 65 = ''Watch (Trending High)''"
  "signal_for 35 = ''Watch (Trending Low)''"
  "signal_for 50 = ''HOLD / NEUTRAL''"
  by (simp_all add: signal_for_def)

text \<open>
  C2, as the specification states it, fails: the momentum of the result is not the
  oscillator of a simple 14-period mean. Twelve unchanged days, one fall, one rise: the
  simple means of gains and losses are equal and the reference is 50; the analysis
  returns \<open>1400 / 27\<close>, because the older fall has decayed by a factor \<open>13/14\<close>.
\<close>

theorem momentum_simple_mean_counterexample:
  "15 \<le> length (stock_prices id
             (table_of ''INFY.NS''
                [100, 100, 100, 100, 100, 100, 100, 100, 100, 100, 100, 100, 100, 99, 100])
             ''INFY.NS'')
   \<and> map_option rsi
        (emitted (analyze_technical_indicators id
           [table_of ''INFY.NS''
              [100, 100, 100, 100, 100, 100, 100, 100, 100, 100, 100, 100, 100, 99, 100]] 0)
           ''INFY.NS'') = Some (Fin (1400 / 27))
   \<and> simple_rsi (stock_prices id
         (table_of ''INFY.NS''
            [100, 100, 100, 100, 100, 100, 100, 100, 100, 100, 100, 100, 100, 99, 100])
         ''INFY.NS'') = 50"
proof -
  let ?ps = "[100, 100, 100, 100, 100, 100, 100, 100, 100, 100, 100, 100, 100, 99, 100] :: real list"
  have "rsi (entry_of ?ps) = Fin (1400 / 27)"
    by (simp add: entry_of_def last_momentum_rsi price_changes_single price_changes_Cons
        gains_def losses_def smooth_Cons smooth_Nil rsi_point_def fsub_def)
  moreover have "simple_rsi ?ps = 50"
    by (simp add: simple_rsi_def price_changes_single price_changes_Cons gains_def losses_def
        Let_def)
  ultimately show ?thesis
    by (simp add: emitted_table_of stock_prices_table_of)
qed

text \<open>
  C2, amended. For every instrument with at least 15 observations, the momentum of the
  result is the oscillator with exponential smoothing over the whole history in ascending
  date order: with the gains and the losses each averaged with weight
  \<open>(1/14) * (13/14) ^ k\<close> on the change \<open>k\<close> days before the latest, the value is 100
  when the averaged loss is zero and \<open>100 - 100 / (1 + gain / loss)\<close> otherwise. The
  history is some date-ordered list of the instrument's rows, whatever the sort does with
  equal dates; when the dates are pairwise distinct it is the date-ordered list.
\<close>

theorem momentum_is_exponential_oscillator:
  assumes "df < length h"
    and "15 \<le> length (filter (\<lambda>r. product_id r = t) (h ! df))"
  shows "(\<exists>rows. date_ordered (h ! df) t rows
            \<and> map_option rsi (emitted (analyze_technical_indicators ties h df) t) =
                Some (Fin (wilder_rsi (map avg_price rows))))
       \<and> (\<forall>rows. date_ordered (h ! df) t rows \<and> distinct (map date rows) \<longrightarrow>
              map_option rsi (emitted (analyze_technical_indicators ties h df) t) =
                Some (Fin (wilder_rsi (map avg_price rows))))"
proof (intro conjI allI impI)
  obtain rows where ord: "date_ordered (h ! df) t rows"
    and e: "emitted (analyze_technical_indicators ties h df) t =
            Some (entry_of (map avg_price rows))"
    using emitted_sorted [OF assms] by blast
  have "15 \<le> length (map avg_price rows)"
    using assms(2) length_date_ordered [OF ord] by simp
  then have "rsi (entry_of (map avg_price rows)) = Fin (wilder_rsi (map avg_price rows))"
    by (rule rsi_entry)
  with ord e show "\<exists>rows. date_ordered (h ! df) t rows
      \<and> map_option rsi (emitted (analyze_technical_indicators ties h df) t) =
          Some (Fin (wilder_rsi (map avg_price rows)))"
    by auto
next
  fix rows
  assume a: "date_ordered (h ! df) t rows \<and> distinct (map date rows)"
  then have long: "15 \<le> length rows"
    using assms(2) length_date_ordered [of "h ! df" t rows] by simp
  then have "15 \<le> length (map avg_price rows)" by simp
  then have "rsi (entry_of (map avg_price rows)) = Fin (wilder_rsi (map avg_price rows))"
    by (rule rsi_entry)
  then show "map_option rsi (emitted (analyze_technical_indicators ties h df) t) =
      Some (Fin (wilder_rsi (map avg_price rows)))"
    using emitted_distinct [OF assms(1) _ _ long, of t ties] a by simp
qed

theorem momentum_is_exponential_oscillator_witness:
  "date_ordered
     (table_of ''INFY.NS''
        [100, 100, 100, 100, 100, 100, 100, 100, 100, 100, 100, 100, 100, 99, 100])
     ''INFY.NS''
     (table_of ''INFY.NS''
        [100, 100, 100, 100, 100, 100, 100, 100, 100, 100, 100, 100, 100, 99, 100])
   \<and> distinct (map date
       (table_of ''INFY.NS''
          [100, 100, 100, 100, 100, 100, 100, 100, 100, 100, 100, 100, 100, 99, 100]))
   \<and> map_option rsi
       (emitted (analyze_technical_indicators rev
          [table_of ''INFY.NS''
             [100, 100, 100, 100, 100, 100, 100, 100, 100, 100, 100, 100, 100, 99, 100]] 0)
          ''INFY.NS'') =
     Some (Fin (wilder_rsi
       [100, 100, 100, 100, 100, 100, 100, 100, 100, 100, 100, 100, 100, 99, 100]))"
proof -
  let ?ps = "[100, 100, 100, 100, 100, 100, 100, 100, 100, 100, 100, 100, 100, 99, 100] :: real list"
  let ?T = "table_of ''INFY.NS'' ?ps"
  have ord: "date_ordered ?T ''INFY.NS'' ?T"
    by (rule date_ordered_table_of)
  have dis: "distinct (map date ?T)"
    by (rule distinct_dates_table_of)
  have l: "0 < length [?T]" by simp
  have n: "15 \<le> length (filter (\<lambda>r. product_id r = ''INFY.NS'') ([?T] ! 0))"
    using length_date_ordered [OF ord] by (simp add: table_of_def)
  from momentum_is_exponential_oscillator [OF l n, of rev]
  have "map_option rsi (emitted (analyze_technical_indicators rev [?T] 0) ''INFY.NS'') =
        Some (Fin (wilder_rsi (map avg_price ?T)))"
    using ord dis by simp
  with ord dis show ?thesis
    by (simp add: avg_price_table_of)
qed

text \<open>
  C3. An instrument with fewer than 15 rows has no entry in the result, and the call
  returns the dictionary: it does not raise.
\<close>

theorem short_history_is_omitted:
  assumes "df < length h"
    and "length (filter (\<lambda>r. product_id r = t) (h ! df)) < 15"
  shows "\<exists>results. snd (analyze_technical_indicators ties h df) = Inr results
                   \<and> t \<notin> fst ` set results"
proof -
  have "t \<notin> fst ` set (entries_of ties (h ! df) (unique (map product_id (h ! df))))"
    using assms(2) by (simp add: keys_entries_of)
  then show ?thesis
    using snd_analyze [OF assms(1), of ties] by blast
qed

theorem short_history_is_omitted_witness:
  "\<exists>results. snd (analyze_technical_indicators id [table_of ''UPL.NS'' [710, 705, 712]] 0)
                = Inr results
             \<and> ''UPL.NS'' \<notin> fst ` set results"
  using short_history_is_omitted
    [where df = 0 and h = "[table_of ''UPL.NS'' [710, 705, 712]]" and t = "''UPL.NS''"
       and ties = id]
  by (simp add: table_of_def)

text \<open>
  C4, as the specification states it, fails: nothing is validated. A table whose
  fourteenth price is zero is analysed without an error, and the result holds a volatility
  that is not a number next to a neutral signal.
\<close>

theorem malformed_price_counterexample:
  "snd (analyze_technical_indicators id
     [table_of ''LT.NS'' [100, 100, 100, 100, 100, 100, 100, 100, 100, 100, 100, 100, 100, 0, 100]]
     0) =
   Inr [(''LT.NS'',
         \<lparr>rsi = Fin (1400 / 27), volatility = NaN,
          signal = ''HOLD / NEUTRAL'', signal_color = ''gray''\<rparr>)]"
proof -
  let ?ps = "[100, 100, 100, 100, 100, 100, 100, 100, 100, 100, 100, 100, 100, 0, 100] :: real list"
  have r: "last (momentum_rsi ?ps 14) = Fin (1400 / 27)"
    by (simp add: last_momentum_rsi price_changes_single price_changes_Cons gains_def
        losses_def smooth_Cons smooth_Nil rsi_point_def fsub_def)
  have p: "pct_change ?ps =
     [NaN, Fin 0, Fin 0, Fin 0, Fin 0, Fin 0, Fin 0, Fin 0, Fin 0, Fin 0, Fin 0, Fin 0, Fin 0,
      Fin (- 1), PInf]"
    by (simp add: pct_change_def fsub_def)
  have s: "std (pct_change ?ps) = NaN"
    unfolding p by (simp add: std_def fsum_def fsub_def Let_def)
  have "entry_of ?ps =
        \<lparr>rsi = Fin (1400 / 27), volatility = NaN,
         signal = ''HOLD / NEUTRAL'', signal_color = ''gray''\<rparr>"
    unfolding entry_of_def r s by (simp add: signal_logic_def Let_def)
  then show ?thesis
    by (simp add: snd_analyze_table_of)
qed

text \<open>
  C4, amended. For every input table, whatever its prices and dates, the call raises no
  error and returns a dictionary whose keys are exactly the instruments with at least 15
  rows.
\<close>

theorem analysis_validates_nothing:
  assumes "df < length h"
  shows "\<exists>results. snd (analyze_technical_indicators ties h df) = Inr results
           \<and> fst ` set results = {t. 15 \<le> length (filter (\<lambda>r. product_id r = t) (h ! df))}"
  using snd_analyze [OF assms, of ties] keys_entries_of [of ties "h ! df"] by blast

theorem analysis_validates_nothing_witness:
  "\<exists>results. snd (analyze_technical_indicators id
       [table_of ''LT.NS'' [100, 100, 100, 100, 100, 100, 100, 100, 100, 100, 100, 100, 100, 0, 100]]
       0) = Inr results
     \<and> ''LT.NS'' \<in> fst ` set results"
proof -
  let ?ps = "[100, 100, 100, 100, 100, 100, 100, 100, 100, 100, 100, 100, 100, 0, 100] :: real list"
  let ?h = "[table_of ''LT.NS'' ?ps]"
  have "0 < length ?h" by simp
  from analysis_validates_nothing [OF this, of id]
  obtain results where res: "snd (analyze_technical_indicators id ?h 0) = Inr results"
    and keys: "fst ` set results =
       {t. 15 \<le> length (filter (\<lambda>r. product_id r = t) (?h ! 0))}"
    by blast
  have "15 \<le> length (filter (\<lambda>r. product_id r = ''LT.NS'') (?h ! 0))"
    by (simp add: length_filter_table_of)
  with keys have "''LT.NS'' \<in> fst ` set results" by blast
  with res show ?thesis by blast
qed

text \<open>
  C5, as the specification states it, fails for an instrument with a zero price: the
  return after it is infinite and the volatility of the result is not a number, so it is
  no standard deviation times the square root of 252.
\<close>

theorem volatility_zero_price_counterexample:
  "map_option volatility
     (emitted (analyze_technical_indicators id
        [table_of ''BPCL.NS'' [0, 300, 300, 300, 300, 300, 300, 300, 300, 300, 300, 300, 300,
           300, 300]] 0) ''BPCL.NS'') = Some NaN
   \<and> map_option volatility
     (emitted (analyze_technical_indicators id
        [table_of ''BPCL.NS'' [0, 300, 300, 300, 300, 300, 300, 300, 300, 300, 300, 300, 300,
           300, 300]] 0) ''BPCL.NS'') \<noteq>
     Some (Fin (sample_std (daily_returns [0, 300, 300, 300, 300, 300, 300, 300, 300, 300, 300,
        300, 300, 300, 300]) * sqrt 252))"
proof -
  let ?ps = "[0, 300, 300, 300, 300, 300, 300, 300, 300, 300, 300, 300, 300, 300, 300] :: real list"
  have p: "pct_change ?ps =
     [NaN, PInf, Fin 0, Fin 0, Fin 0, Fin 0, Fin 0, Fin 0, Fin 0, Fin 0, Fin 0, Fin 0, Fin 0,
      Fin 0, Fin 0]"
    by (simp add: pct_change_def fsub_def)
  have s: "std (pct_change ?ps) = NaN"
    unfolding p by (simp add: std_def fsum_def fsub_def Let_def)
  have "volatility (entry_of ?ps) = NaN"
    by (simp add: entry_of_def s)
  then show ?thesis
    by (simp add: emitted_table_of)
qed

text \<open>
  C5, amended. For every instrument in the result whose prices are all other than zero,
  the volatility is the sample standard deviation, with the \<open>n - 1\<close> denominator, of the
  day-over-day percentage returns over the whole history in ascending date order, times
  the square root of 252. The history is some date-ordered list of the instrument's rows,
  whatever the sort does with equal dates; when the dates are pairwise distinct it is the
  date-ordered list.
\<close>

theorem volatility_is_annualized_sample_std:
  assumes "df < length h"
    and "emitted (analyze_technical_indicators ties h df) t = Some r"
    and "\<forall>x \<in> set (filter (\<lambda>r. product_id r = t) (h ! df)). avg_price x \<noteq> 0"
  shows "(\<exists>rows. date_ordered (h ! df) t rows
            \<and> volatility r = Fin (sample_std (daily_returns (map avg_price rows)) * sqrt 252))
       \<and> (\<forall>rows. date_ordered (h ! df) t rows \<and> distinct (map date rows) \<longrightarrow>
              volatility r = Fin (sample_std (daily_returns (map avg_price rows)) * sqrt 252))"
proof -
  let ?ps = "stock_prices ties (h ! df) t"
  from assms(1,2) have long: "15 \<le> length ?ps" and r: "r = entry_of ?ps"
    by (auto simp: emitted_char split: if_splits)
  have nz: "\<forall>p \<in> set ?ps. p \<noteq> 0"
    using assms(3) by (auto simp: set_stock_prices)
  from long have "3 \<le> length ?ps" by simp
  then have v: "volatility r = Fin (sample_std (daily_returns ?ps) * sqrt 252)"
    unfolding r using nz by (rule volatility_entry)
  have n: "15 \<le> length (filter (\<lambda>r. product_id r = t) (h ! df))"
    using long by (simp add: length_stock_prices)
  obtain rows where "date_ordered (h ! df) t rows" and "?ps = map avg_price rows"
    using emitted_sorted [OF assms(1) n, of ties] by blast
  with v have first: "\<exists>rows. date_ordered (h ! df) t rows
      \<and> volatility r = Fin (sample_std (daily_returns (map avg_price rows)) * sqrt 252)"
    by auto
  have second: "volatility r = Fin (sample_std (daily_returns (map avg_price rows)) * sqrt 252)"
    if "date_ordered (h ! df) t rows \<and> distinct (map date rows)" for rows
    using v stock_prices_unique [of "h ! df" t rows ties] that by simp
  from first second show ?thesis by blast
qed

theorem volatility_is_annualized_sample_std_witness:
  "\<exists>r. emitted (analyze_technical_indicators id
          [table_of ''ITC.NS'' [400, 404, 402, 408, 410, 405, 407, 412, 415, 411, 409, 414,
             418, 420, 417]] 0) ''ITC.NS'' = Some r
     \<and> volatility r =
         Fin (sample_std (daily_returns [400, 404, 402, 408, 410, 405, 407, 412, 415, 411, 409,
                414, 418, 420, 417]) * sqrt 252)"
proof -
  let ?ps = "[400, 404, 402, 408, 410, 405, 407, 412, 415, 411, 409, 414, 418, 420, 417] :: real list"
  let ?T = "table_of ''ITC.NS'' ?ps"
  have e: "emitted (analyze_technical_indicators id [?T] 0) ''ITC.NS'' = Some (entry_of ?ps)"
    by (rule emitted_table_of) simp
  have l: "0 < length [?T]" by simp
  have "set (stock_prices id ?T ''ITC.NS'') = set ?ps"
    by (simp only: stock_prices_table_of)
  then have "\<forall>p \<in> avg_price ` set (filter (\<lambda>r. product_id r = ''ITC.NS'') ?T). p \<noteq> 0"
    unfolding set_stock_prices by simp
  then have nz: "\<forall>x \<in> set (filter (\<lambda>r. product_id r = ''ITC.NS'') ([?T] ! 0)).
      avg_price x \<noteq> 0"
    by simp
  have "date_ordered ([?T] ! 0) ''ITC.NS'' ?T \<and> distinct (map date ?T)"
    using date_ordered_table_of [of "''ITC.NS''" ?ps] distinct_dates_table_of [of "''ITC.NS''" ?ps]
    by simp
  with volatility_is_annualized_sample_std [OF l e nz]
  have "volatility (entry_of ?ps) =
        Fin (sample_std (daily_returns (map avg_price ?T)) * sqrt 252)"
    by blast
  with e show ?thesis
    by (simp add: avg_price_table_of)
qed

text \<open>
  C6. For every instrument with at least 15 observations, the momentum of the result is a
  number between 0 and 100. Positive prices and unique dates are not needed for it.
\<close>

theorem momentum_within_bounds:
  assumes "df < length h"
    and "15 \<le> length (stock_prices ties (h ! df) t)"
  shows "\<exists>v. map_option rsi (emitted (analyze_technical_indicators ties h df) t) = Some (Fin v)
           \<and> 0 \<le> v \<and> v \<le> 100"
  using assms wilder_rsi_bounds [of "stock_prices ties (h ! df) t"]
  by (simp add: emitted_char rsi_entry)

theorem momentum_within_bounds_witness:
  "\<exists>v. map_option rsi
          (emitted (analyze_technical_indicators id
             [table_of ''ITC.NS'' [400, 404, 402, 408, 410, 405, 407, 412, 415, 411, 409, 414,
                418, 420, 417]] 0) ''ITC.NS'') = Some (Fin v)
      \<and> 0 \<le> v \<and> v \<le> 100"
  using momentum_within_bounds
    [where df = 0 and h = "[table_of ''ITC.NS'' [400, 404, 402, 408, 410, 405, 407, 412, 415,
        411, 409, 414, 418, 420, 417]]" and t = "''ITC.NS''" and ties = id]
  by (simp add: stock_prices_table_of)



text \<open>
  C8, as the specification states it, fails in its momentum: a constant series gives
  momentum 100 and a sell signal, not 50 and a neutral one. The volatility is 0 as
  stated.
\<close>

theorem constant_series_counterexample:
  "snd (analyze_technical_indicators id
     [table_of ''NTPC.NS'' [100, 100, 100, 100, 100, 100, 100, 100, 100, 100, 100, 100, 100,
        100, 100]] 0) =
   Inr [(''NTPC.NS'',
         \<lparr>rsi = Fin 100, volatility = Fin 0,
          signal = ''SELL (Overbought)'', signal_color = ''red''\<rparr>)]"
proof -
  let ?ps = "[100, 100, 100, 100, 100, 100, 100, 100, 100, 100, 100, 100, 100, 100, 100] :: real list"
  have "entry_of ?ps =
        \<lparr>rsi = Fin 100, volatility = Fin 0,
         signal = ''SELL (Overbought)'', signal_color = ''red''\<rparr>"
    by (rule constant_entry [where c = 100]) simp_all
  then show ?thesis
    by (simp add: snd_analyze_table_of)
qed

text \<open>
  C8, amended. For every instrument whose price series of length at least 15 is constant
  at a price other than zero, the result has an entry for it, with volatility exactly 0,
  momentum 100 (the value of the oscillator when no loss is recorded) and the signal
  "SELL (Overbought)".
\<close>

theorem constant_series_output:
  assumes "df < length h"
    and "15 \<le> length (stock_prices ties (h ! df) t)"
    and "\<forall>p \<in> set (stock_prices ties (h ! df) t). p = c"
    and "c \<noteq> 0"
  shows "emitted (analyze_technical_indicators ties h df) t =
         Some \<lparr>rsi = Fin 100, volatility = Fin 0,
               signal = ''SELL (Overbought)'', signal_color = ''red''\<rparr>"
  using assms(1,2) constant_entry [OF assms(3,2,4)]
  by (simp add: emitted_char)

theorem constant_series_output_witness:
  "emitted (analyze_technical_indicators id
     [table_of ''ONGC.NS'' [250, 250, 250, 250, 250, 250, 250, 250, 250, 250, 250, 250, 250,
        250, 250, 250]] 0) ''ONGC.NS'' =
   Some \<lparr>rsi = Fin 100, volatility = Fin 0,
         signal = ''SELL (Overbought)'', signal_color = ''red''\<rparr>"
  using constant_series_output
    [where df = 0 and h = "[table_of ''ONGC.NS'' [250, 250, 250, 250, 250, 250, 250, 250, 250,
        250, 250, 250, 250, 250, 250, 250]]" and t = "''ONGC.NS''" and c = 250 and ties = id]
  by (simp add: stock_prices_table_of)

text \<open>
  C9. The call changes no data frame that existed before it, its input among them (it
  only creates frames and assigns columns in a frame it created), and a second call on the
  same input returns the same result. The sort is the same function in both calls.
\<close>

theorem analysis_is_pure:
  assumes "df < length h"
  shows "take (length h) (fst (analyze_technical_indicators ties h df)) = h
       \<and> snd (analyze_technical_indicators ties (fst (analyze_technical_indicators ties h df)) df) =
           snd (analyze_technical_indicators ties h df)"
proof -
  obtain h' where run: "analyze_technical_indicators ties h df =
      (h @ h', Inr (entries_of ties (h ! df) (unique (map product_id (h ! df)))))"
    using analyze_char [OF assms, of ties] by blast
  have same: "(h @ h') ! df = h ! df"
    using assms by (simp add: nth_append)
  have "df < length (h @ h')" using assms by simp
  from snd_analyze [OF this, of ties] same run show ?thesis by simp
qed

theorem analysis_is_pure_witness:
  "take 1 (fst (analyze_technical_indicators id
      [table_of ''HDFCBANK.NS'' [1500, 1500, 1500, 1500, 1500, 1500, 1500, 1500, 1500, 1500,
         1500, 1500, 1500, 1500, 1500]] 0)) =
     [table_of ''HDFCBANK.NS'' [1500, 1500, 1500, 1500, 1500, 1500, 1500, 1500, 1500, 1500,
         1500, 1500, 1500, 1500, 1500]]
   \<and> snd (analyze_technical_indicators id
       [table_of ''HDFCBANK.NS'' [1500, 1500, 1500, 1500, 1500, 1500, 1500, 1500, 1500, 1500,
          1500, 1500, 1500, 1500, 1500]] 0) =
     Inr [(''HDFCBANK.NS'',
           \<lparr>rsi = Fin 100, volatility = Fin 0,
            signal = ''SELL (Overbought)'', signal_color = ''red''\<rparr>)]
   \<and> snd (analyze_technical_indicators id
       (fst (analyze_technical_indicators id
          [table_of ''HDFCBANK.NS'' [1500, 1500, 1500, 1500, 1500, 1500, 1500, 1500, 1500, 1500,
             1500, 1500, 1500, 1500, 1500]] 0)) 0) =
     Inr [(''HDFCBANK.NS'',
           \<lparr>rsi = Fin 100, volatility = Fin 0,
            signal = ''SELL (Overbought)'', signal_color = ''red''\<rparr>)]"
proof -
  let ?ps = "[1500, 1500, 1500, 1500, 1500, 1500, 1500, 1500, 1500, 1500, 1500, 1500, 1500,
             1500, 1500] :: real list"
  let ?T = "table_of ''HDFCBANK.NS'' ?ps"
  have "entry_of ?ps =
        \<lparr>rsi = Fin 100, volatility = Fin 0,
         signal = ''SELL (Overbought)'', signal_color = ''red''\<rparr>"
    by (rule constant_entry [where c = 1500]) simp_all
  then have first: "snd (analyze_technical_indicators id [?T] 0) =
      Inr [(''HDFCBANK.NS'',
            \<lparr>rsi = Fin 100, volatility = Fin 0,
             signal = ''SELL (Overbought)'', signal_color = ''red''\<rparr>)]"
    by (simp add: snd_analyze_table_of)
  have "0 < length [?T]" by simp
  from analysis_is_pure [OF this, of id] first show ?thesis by simp
qed

text \<open>
  C10. Every entry of the result has the field \<open>signal_color\<close>, and it goes with the
  signal: red with "SELL (Overbought)", green with "BUY (Oversold)", orange with
  "Watch (Trending High)", blue with "Watch (Trending Low)", gray with "HOLD / NEUTRAL".
  The five signals and the five colours are pairwise different, so each colour occurs
  exactly with its signal.
\<close>

theorem signal_color_matches_signal:
  assumes "df < length h"
    and "emitted (analyze_technical_indicators ties h df) t = Some r"
  shows "signal r = ''SELL (Overbought)'' \<and> signal_color r = ''red''
       \<or> signal r = ''BUY (Oversold)'' \<and> signal_color r = ''green''
       \<or> signal r = ''Watch (Trending High)'' \<and> signal_color r = ''orange''
       \<or> signal r = ''Watch (Trending Low)'' \<and> signal_color r = ''blue''
       \<or> signal r = ''HOLD / NEUTRAL'' \<and> signal_color r = ''gray''"
proof -
  let ?x = "last (momentum_rsi (stock_prices ties (h ! df) t) 14)"
  from assms have r: "r = entry_of (stock_prices ties (h ! df) t)"
    by (auto simp: emitted_char split: if_splits)
  have "(signal r, signal_color r) = signal_logic ?x"
    by (simp add: r entry_of_def)
  with signal_logic_pairs [of ?x] show ?thesis by auto
qed

theorem signal_color_matches_signal_witness:
  "\<exists>r. emitted (analyze_technical_indicators id
          [table_of ''WIPRO.NS'' [450, 449, 447, 440, 438, 435, 430, 429, 425, 420, 418, 415,
             410, 405, 400]] 0) ''WIPRO.NS'' = Some r
     \<and> signal r = ''BUY (Oversold)'' \<and> signal_color r = ''green''"
proof -
  let ?ps = "[450, 449, 447, 440, 438, 435, 430, 429, 425, 420, 418, 415, 410, 405, 400] :: real list"
  let ?h = "[table_of ''WIPRO.NS'' ?ps]"
  have e: "emitted (analyze_technical_indicators id ?h 0) ''WIPRO.NS'' = Some (entry_of ?ps)"
    by (rule emitted_table_of) simp
  have "rsi (entry_of ?ps) = Fin (wilder_rsi ?ps)"
    by (rule rsi_entry) simp
  moreover have "wilder_rsi ?ps = 0"
    by (rule wilder_rsi_decreasing) simp_all
  ultimately have "last (momentum_rsi ?ps 14) = Fin 0"
    by (simp add: entry_of_def)
  then have s: "signal (entry_of ?ps) = ''BUY (Oversold)''"
    by (simp add: entry_of_def signal_logic_def Let_def)
  have "0 < length ?h" by simp
  from signal_color_matches_signal [OF this e] s
  have "signal_color (entry_of ?ps) = ''green''" by simp
  with e s show ?thesis by blast
qed

end
